theory Spec2Isabelle
  imports Main
begin

unbundle bit_operations_syntax

section \<open>cart_maker.py: an Atari 2600 cartridge image built from raw opcodes\<close>

text \<open>
  The script is one forward pass over module-level values. Python integers are unbounded
  and are modelled as \<open>int\<close>; a \<^verbatim>\<open>bytearray\<close> is the list of its elements, each
  of which Python keeps in \<open>range(256)\<close>. The two exceptions the statements of the
  script can raise are values of \<open>error\<close>, and a computation that may raise returns
  \<open>error + 'a\<close> with \<open>Inl\<close> for the exception.
\<close>

subsection \<open>Set-up: the address helpers\<close>

text \<open>
  \<^verbatim>\<open>def lsb(word): return(word & 0x00FF)\<close> and
  \<^verbatim>\<open>def msb(word): return(word >> 8)\<close>. On Python's integers \<^verbatim>\<open>&\<close> is the
  two's-complement conjunction and \<^verbatim>\<open>>>\<close> the arithmetic shift, as \<open>AND\<close> and
  \<open>drop_bit\<close> are on \<open>int\<close>.
\<close>

definition lsb :: "int \<Rightarrow> int" where
  "lsb word = word AND 0x00FF"

definition msb :: "int \<Rightarrow> int" where
  "msb word = drop_bit 8 word"

subsection \<open>Set-up: the reset vector\<close>

text \<open>
  \<^verbatim>\<open>reset_vector = 0xFFFF - rom_size + 1\<close>, as a function of the module constant
  \<^verbatim>\<open>rom_size\<close> that it reads. The comment above \<^verbatim>\<open>rom_size\<close> in the source
  names the two sizes of a cartridge: 2k and 4k.
\<close>

definition reset_vector :: "int \<Rightarrow> int" where
  "reset_vector rom_size = 0xFFFF - rom_size + 1"

definition valid_rom_size :: "int \<Rightarrow> bool" where
  "valid_rom_size rom_size = (rom_size = 2 * 1024 \<or> rom_size = 4 * 1024)"

subsection \<open>Python's bytearray operations\<close>

datatype error = ValueError | IndexError

definition is_byte :: "int \<Rightarrow> bool" where
  "is_byte v = (0 \<le> v \<and> v < 256)"

text \<open>
  \<^verbatim>\<open>bytearray(iterable_of_ints)\<close> raises ValueError unless every element is in
  \<open>range(256)\<close>.
\<close>

definition bytearray :: "int list \<Rightarrow> error + int list" where
  "bytearray vs = (if list_all is_byte vs then Inr vs else Inl ValueError)"

text \<open>\<^verbatim>\<open>xs * n\<close> on a list: \<open>n\<close> copies of \<open>xs\<close>, none when \<open>n\<close> is negative.\<close>

definition list_mul :: "'a list \<Rightarrow> int \<Rightarrow> 'a list" where
  "list_mul xs n = concat (replicate (nat n) xs)"

text \<open>
  \<^verbatim>\<open>b[i] = v\<close> on a bytearray: the value is converted first (ValueError outside
  \<open>range(256)\<close>), then a negative index counts from the end, and an index outside the
  buffer raises IndexError. The buffer never grows.
\<close>

definition setitem :: "int list \<Rightarrow> int \<Rightarrow> int \<Rightarrow> error + int list" where
  "setitem b i v =
     (if is_byte v then
        (let n = int (length b); j = (if i < 0 then i + n else i)
         in if 0 \<le> j \<and> j < n then Inr (b[nat j := v]) else Inl IndexError)
      else Inl ValueError)"

subsection \<open>The machine code\<close>

text \<open>The literal lists handed to \<^verbatim>\<open>bytearray\<close>, byte for byte as in the source.\<close>

definition init_tia_bytes :: "int list" where
  "init_tia_bytes =
     [0x78,
      0xD8,
      0xA2, 0xFF,
      0x9A,
      0xA9, 0x00,
      0xE8,
      0xA8,
      0x95, 0x00,
      0xCA,
      0xD0, 0xFB]"

definition vblank_bytes :: "int list" where
  "vblank_bytes =
     [0xA9, 0x02,
      0x85, 0x01,
      0x85, 0x00,
      0x85, 0x02,
      0x85, 0x02,
      0x85, 0x02,
      0xA9, 0x00,
      0x85, 0x00,
      0xA2, 0x25,
      0x85, 0x02,
      0xCA,
      0xD0, 0xFB,
      0x85, 0x01]"

definition viz_area_bytes :: "int list" where
  "viz_area_bytes =
     [0xA2, 0xC0,
      0xA4, 0x80,
      0x84, 0x09,
      0xC8,
      0xC8,
      0x85, 0x02,
      0xCA,
      0xD0, 0xF7]"

text \<open>
  \<^verbatim>\<open>looptop = 0xFFFF - rom_size + len(init_tia) + 5\<close>: the operand of the
  \<^verbatim>\<open>JMP\<close> that closes the overscan chunk.
\<close>

definition looptop :: "int \<Rightarrow> int list \<Rightarrow> int" where
  "looptop rom_size init_tia = 0xFFFF - rom_size + int (length init_tia) + 5"

definition overscan_bytes :: "int \<Rightarrow> int list" where
  "overscan_bytes looptop_addr =
     [0xA9, 0x02,
      0x85, 0x01,
      0xA2, 0x1C,
      0x85, 0x02,
      0xCA,
      0xD0, 0xFB,
      0xA5, 0x80,
      0x38,
      0xE9, 0x04,
      0x85, 0x02,
      0x85, 0x80,
      0xA9, 0x02,
      0x85, 0x02,
      0x4C, lsb looptop_addr,
            msb looptop_addr]"

subsection \<open>ROM binary build\<close>

text \<open>
  The statements from \<^verbatim>\<open>rom = init_tia + vblank + viz_area + overscan\<close> to
  \<^verbatim>\<open>rom[rom_size - 3] = msb(reset_vector)\<close>, as a function of the module values
  they read. \<^verbatim>\<open>+\<close> on bytearrays concatenates and cannot fail; the padding is
  built by \<^verbatim>\<open>bytearray([pad_byte] * num_pad_bytes)\<close>; the two index assignments
  come last. There is no comparison of \<open>code_length\<close> with \<open>rom_size\<close> anywhere.
\<close>

definition build_rom ::
  "int list \<Rightarrow> int list \<Rightarrow> int list \<Rightarrow> int list \<Rightarrow> int \<Rightarrow> int \<Rightarrow> error + int list" where
  "build_rom init_tia vblank viz_area overscan rom_size pad_byte =
     (let rom = init_tia @ vblank @ viz_area @ overscan;
          code_length = int (length rom);
          num_pad_bytes = rom_size - code_length
      in case bytearray (list_mul [pad_byte] num_pad_bytes) of
           Inl e \<Rightarrow> Inl e
         | Inr padding \<Rightarrow>
             (let rom = rom @ padding
              in case setitem rom (rom_size - 5) (lsb (reset_vector rom_size)) of
                   Inl e \<Rightarrow> Inl e
                 | Inr rom \<Rightarrow> setitem rom (rom_size - 3) (msb (reset_vector rom_size))))"

subsection \<open>The script with its own constants\<close>

definition cfg_rom_size :: int where
  "cfg_rom_size = 2 * 1024"

definition cfg_pad_byte :: int where
  "cfg_pad_byte = 0"

text \<open>
  The whole module up to the file write: four \<^verbatim>\<open>bytearray\<close> constructions in source
  order (the last one after \<open>looptop\<close> is known), then the build. The result is the
  buffer passed to \<^verbatim>\<open>out_file.write\<close>, or the first exception raised.
\<close>

definition cart_maker :: "error + int list" where
  "cart_maker =
     (case bytearray init_tia_bytes of
        Inl e \<Rightarrow> Inl e
      | Inr init_tia \<Rightarrow>
     (case bytearray vblank_bytes of
        Inl e \<Rightarrow> Inl e
      | Inr vblank \<Rightarrow>
     (case bytearray viz_area_bytes of
        Inl e \<Rightarrow> Inl e
      | Inr viz_area \<Rightarrow>
     (case bytearray (overscan_bytes (looptop cfg_rom_size init_tia)) of
        Inl e \<Rightarrow> Inl e
      | Inr overscan \<Rightarrow>
          build_rom init_tia vblank viz_area overscan cfg_rom_size cfg_pad_byte))))"

subsection \<open>The build on a store of bytearray objects\<close>

text \<open>
  A Python name holds a reference to a mutable object, so whether a second run of the
  build sees what the first one wrote depends on which statements allocate and which
  write in place. Here the store is the list of the bytearray objects allocated so far
  and a reference is an index into it. \<^verbatim>\<open>bytearray(...)\<close> and \<^verbatim>\<open>x + y\<close>
  allocate a new object; \<^verbatim>\<open>b[i] = v\<close> writes into the object that \<open>b\<close> refers
  to. An exception leaves the store as it was when raised.
\<close>

type_synonym ref = nat
type_synonym store = "int list list"

definition alloc :: "store \<Rightarrow> int list \<Rightarrow> store \<times> ref" where
  "alloc s b = (s @ [b], length s)"

definition bytearray_new :: "store \<Rightarrow> int list \<Rightarrow> store \<times> (error + ref)" where
  "bytearray_new s vs =
     (case bytearray vs of
        Inl e \<Rightarrow> (s, Inl e)
      | Inr b \<Rightarrow> (let (s, r) = alloc s b in (s, Inr r)))"

definition bytearray_add :: "store \<Rightarrow> ref \<Rightarrow> ref \<Rightarrow> store \<times> ref" where
  "bytearray_add s x y = alloc s (s ! x @ s ! y)"

definition bytearray_setitem :: "store \<Rightarrow> ref \<Rightarrow> int \<Rightarrow> int \<Rightarrow> store \<times> (error + unit)" where
  "bytearray_setitem s r i v =
     (case setitem (s ! r) i v of
        Inl e \<Rightarrow> (s, Inl e)
      | Inr b \<Rightarrow> (s[r := b], Inr ()))"

text \<open>
  The same statements as \<open>build_rom\<close>, on references. Each \<^verbatim>\<open>+\<close> of
  \<^verbatim>\<open>init_tia + vblank + viz_area + overscan\<close> makes an object of its own, and
  \<^verbatim>\<open>rom = rom + bytearray(...)\<close> rebinds \<open>rom\<close> to a fresh one. The result is the
  final store with the reference bound to \<open>rom\<close>, or with the exception.
\<close>

definition build_rom_store ::
  "store \<Rightarrow> ref \<Rightarrow> ref \<Rightarrow> ref \<Rightarrow> ref \<Rightarrow> int \<Rightarrow> int \<Rightarrow> store \<times> (error + ref)" where
  "build_rom_store s init_tia vblank viz_area overscan rom_size pad_byte =
     (let (s, t1) = bytearray_add s init_tia vblank;
          (s, t2) = bytearray_add s t1 viz_area;
          (s, rom) = bytearray_add s t2 overscan;
          code_length = int (length (s ! rom));
          num_pad_bytes = rom_size - code_length
      in case bytearray_new s (list_mul [pad_byte] num_pad_bytes) of
           (s, Inl e) \<Rightarrow> (s, Inl e)
         | (s, Inr padding) \<Rightarrow>
             (let (s, rom) = bytearray_add s rom padding
              in case bytearray_setitem s rom (rom_size - 5) (lsb (reset_vector rom_size)) of
                   (s, Inl e) \<Rightarrow> (s, Inl e)
                 | (s, Inr _) \<Rightarrow>
                     (case bytearray_setitem s rom (rom_size - 3) (msb (reset_vector rom_size)) of
                        (s, Inl e) \<Rightarrow> (s, Inl e)
                      | (s, Inr _) \<Rightarrow> (s, Inr rom))))"

text \<open>What a run hands to its caller: the bytes of the buffer, or the exception.\<close>

definition run_output :: "store \<times> (error + ref) \<Rightarrow> error + int list" where
  "run_output run = (case run of (s, Inl e) \<Rightarrow> Inl e | (s, Inr rom) \<Rightarrow> Inr (s ! rom))"

section \<open>Properties\<close>

subsection \<open>The address helpers\<close>

lemma lsb_mod: "lsb w = w mod 256"
proof -
  have "w AND 255 = take_bit 8 w"
    by (simp add: take_bit_eq_mask mask_eq_exp_minus_1)
  then show ?thesis
    by (simp add: lsb_def take_bit_eq_mod)
qed

lemma msb_div: "msb w = w div 256"
  by (simp add: msb_def drop_bit_eq_div)

lemma is_byte_lsb: "is_byte (lsb w)"
  by (simp add: is_byte_def lsb_mod)

lemma is_byte_msb: "0 \<le> w \<Longrightarrow> w \<le> 0xFFFF \<Longrightarrow> is_byte (msb w)"
  by (simp add: is_byte_def msb_div) linarith

lemma is_byte_msb_reset_vector:
  "1 \<le> rom_size \<Longrightarrow> rom_size \<le> 0x10000 \<Longrightarrow> is_byte (msb (reset_vector rom_size))"
  by (rule is_byte_msb) (simp_all add: reset_vector_def)

text \<open>
  C6. The address-splitting helpers are total functions of their argument alone. For
  every 16-bit address the low result is \<open>addr & 0xFF\<close>, the remainder modulo 256, the
  high result is \<open>addr >> 8\<close>, the quotient by 256, and both are byte values, so that
  storing them in a bytearray cannot fail.
\<close>

theorem split_address_total:
  assumes "0 \<le> addr" and "addr \<le> 0xFFFF"
  shows "lsb addr = addr AND 0xFF \<and> msb addr = drop_bit 8 addr
       \<and> lsb addr = addr mod 256 \<and> msb addr = addr div 256
       \<and> is_byte (lsb addr) \<and> is_byte (msb addr)
       \<and> bytearray [lsb addr, msb addr] = Inr [lsb addr, msb addr]"
proof -
  have "is_byte (lsb addr)" and "is_byte (msb addr)"
    using assms by (simp_all add: is_byte_lsb is_byte_msb)
  moreover have "lsb addr = addr AND 0xFF" and "msb addr = drop_bit 8 addr"
    by (simp_all add: lsb_def msb_def)
  ultimately show ?thesis
    by (simp add: lsb_mod [symmetric] msb_div [symmetric] bytearray_def)
qed

theorem split_address_total_witness:
  "(0::int) \<le> 0xF800 \<and> (0xF800::int) \<le> 0xFFFF
   \<and> lsb 0xF800 = 0x00 \<and> msb 0xF800 = 0xF8
   \<and> bytearray [lsb 0xF800, msb 0xF800] = Inr [0x00, 0xF8]"
proof -
  have lo: "(0::int) \<le> 0xF800" and hi: "(0xF800::int) \<le> 0xFFFF"
    by simp_all
  show ?thesis
    using split_address_total [OF lo hi] by (simp add: lsb_mod msb_div)
qed

text \<open>
  C9. Splitting and recombining is the identity on 16-bit words: for \<open>0 \<le> w \<le> 0xFFFF\<close>,
  \<open>msb w * 256 + lsb w = w\<close>, and both halves lie in \<open>[0, 255]\<close>.
\<close>

theorem split_recombine:
  assumes "0 \<le> w" and "w \<le> 0xFFFF"
  shows "msb w * 256 + lsb w = w
       \<and> 0 \<le> lsb w \<and> lsb w \<le> 255 \<and> 0 \<le> msb w \<and> msb w \<le> 255"
proof -
  have "msb w * 256 + lsb w = w"
    by (simp add: lsb_mod msb_div)
  moreover have "0 \<le> lsb w \<and> lsb w \<le> 255"
    using is_byte_lsb [of w] by (simp add: is_byte_def)
  moreover have "0 \<le> msb w \<and> msb w \<le> 255"
    using is_byte_msb [OF assms] by (simp add: is_byte_def)
  ultimately show ?thesis
    by blast
qed

theorem split_recombine_witness:
  "(0::int) \<le> 0xF812 \<and> (0xF812::int) \<le> 0xFFFF
   \<and> msb 0xF812 * 256 + lsb 0xF812 = 0xF812
   \<and> lsb 0xF812 = 0x12 \<and> msb 0xF812 = 0xF8"
proof -
  have lo: "(0::int) \<le> 0xF812" and hi: "(0xF812::int) \<le> 0xFFFF"
    by simp_all
  show ?thesis
    using split_recombine [OF lo hi] by (simp add: lsb_mod msb_div)
qed

subsection \<open>The build: what it returns\<close>

lemma list_mul_single: "list_mul [x] n = replicate (nat n) x"
proof -
  have "concat (replicate k [x]) = replicate k x" for k
    by (induction k) simp_all
  then show ?thesis
    by (simp add: list_mul_def)
qed

lemma bytearray_replicate:
  "is_byte x \<or> k = 0 \<Longrightarrow> bytearray (replicate k x) = Inr (replicate k x)"
  by (auto simp: bytearray_def list_all_iff)

lemma setitem_in_range:
  "is_byte v \<Longrightarrow> 0 \<le> i \<Longrightarrow> i < int (length b) \<Longrightarrow> setitem b i v = Inr (b[nat i := v])"
  by (simp add: setitem_def)

lemma build_rom_result:
  assumes size: "5 \<le> rom_size" "rom_size \<le> 0x10000"
    and pad: "is_byte pad_byte \<or> rom_size \<le> int (length (init_tia @ vblank @ viz_area @ overscan))"
  shows "build_rom init_tia vblank viz_area overscan rom_size pad_byte =
     Inr (((init_tia @ vblank @ viz_area @ overscan) @
           replicate (nat (rom_size - int (length (init_tia @ vblank @ viz_area @ overscan)))) pad_byte)
          [nat (rom_size - 5) := lsb (reset_vector rom_size),
           nat (rom_size - 3) := msb (reset_vector rom_size)])"
proof -
  define code where "code = init_tia @ vblank @ viz_area @ overscan"
  define k where "k = nat (rom_size - int (length code))"
  define buf where "buf = code @ replicate k pad_byte"
  define lo where "lo = lsb (reset_vector rom_size)"
  define hi where "hi = msb (reset_vector rom_size)"
  from pad have "is_byte pad_byte \<or> k = 0"
    by (auto simp: k_def code_def)
  then have padding: "bytearray (list_mul [pad_byte] (rom_size - int (length code))) = Inr (replicate k pad_byte)"
    by (simp only: list_mul_single bytearray_replicate k_def)
  have len: "rom_size \<le> int (length buf)"
    by (simp add: buf_def k_def)
  have "is_byte lo"
    by (simp add: lo_def is_byte_lsb)
  moreover have "0 \<le> rom_size - 5" "rom_size - 5 < int (length buf)"
    using size len by linarith+
  ultimately have first: "setitem buf (rom_size - 5) lo = Inr (buf[nat (rom_size - 5) := lo])"
    by (rule setitem_in_range)
  have "is_byte hi"
    using size by (simp add: hi_def is_byte_msb_reset_vector)
  moreover have "0 \<le> rom_size - 3" "rom_size - 3 < int (length (buf[nat (rom_size - 5) := lo]))"
    using size len by simp_all
  ultimately have second: "setitem (buf[nat (rom_size - 5) := lo]) (rom_size - 3) hi =
      Inr (buf[nat (rom_size - 5) := lo, nat (rom_size - 3) := hi])"
    by (rule setitem_in_range)
  have "build_rom init_tia vblank viz_area overscan rom_size pad_byte =
      Inr (buf[nat (rom_size - 5) := lo, nat (rom_size - 3) := hi])"
    unfolding build_rom_def Let_def
    using padding first second
    by (simp add: code_def [symmetric] buf_def [symmetric] lo_def [symmetric] hi_def [symmetric])
  then show ?thesis
    by (simp only: buf_def k_def code_def lo_def hi_def)
qed

text \<open>The trailer when the code ends below it.\<close>

lemma patch_last_five:
  "(xs @ [a, b, c, d, e])[length xs := lo, length xs + 2 := hi] = xs @ [lo, b, hi, d, e]"
  by (simp add: list_update_append)

lemma patch_trailer:
  assumes "length code + 5 \<le> n"
  shows "(code @ replicate (n - length code) p)[n - 5 := lo, n - 3 := hi] =
         code @ replicate (n - 5 - length code) p @ [lo, p, hi, p, p]"
proof -
  define m where "m = n - 5 - length code"
  define xs where "xs = code @ replicate m p"
  have n: "n = length code + (m + 5)"
    using assms by (simp add: m_def)
  have "replicate 5 p = [p, p, p, p, p]"
    by (simp add: numeral_eq_Suc)
  then have "replicate (n - length code) p = replicate m p @ [p, p, p, p, p]"
    by (simp only: n add_diff_cancel_left' replicate_add)
  then have buf: "code @ replicate (n - length code) p = xs @ [p, p, p, p, p]"
    by (simp add: xs_def)
  have idx: "n - 5 = length xs" "n - 3 = length xs + 2"
    by (simp_all add: n xs_def)
  have "(code @ replicate (n - length code) p)[n - 5 := lo, n - 3 := hi] = xs @ [lo, p, hi, p, p]"
    by (simp only: buf idx patch_last_five)
  then show ?thesis
    by (simp add: xs_def m_def)
qed

lemma build_rom_layout:
  assumes size: "5 \<le> rom_size" "rom_size \<le> 0x10000"
    and fits: "int (length (init_tia @ vblank @ viz_area @ overscan)) \<le> rom_size - 5"
    and pad: "is_byte pad_byte"
  shows "build_rom init_tia vblank viz_area overscan rom_size pad_byte =
     Inr ((init_tia @ vblank @ viz_area @ overscan) @
          replicate (nat (rom_size - 5) - length (init_tia @ vblank @ viz_area @ overscan)) pad_byte @
          [lsb (reset_vector rom_size), pad_byte, msb (reset_vector rom_size), pad_byte, pad_byte])"
proof -
  define code where "code = init_tia @ vblank @ viz_area @ overscan"
  define n where "n = nat rom_size"
  have le: "length code + 5 \<le> n"
    using fits size by (simp add: code_def n_def)
  have idx: "nat (rom_size - int (length code)) = n - length code"
    "nat (rom_size - 5) = n - 5" "nat (rom_size - 3) = n - 3"
    using size by (simp_all add: n_def nat_diff_distrib')
  have "build_rom init_tia vblank viz_area overscan rom_size pad_byte =
     Inr ((code @ replicate (n - length code) pad_byte)
          [n - 5 := lsb (reset_vector rom_size), n - 3 := msb (reset_vector rom_size)])"
    using build_rom_result [OF size disjI1 [OF pad], of init_tia vblank viz_area overscan]
    by (simp only: code_def [symmetric] idx)
  also have "(code @ replicate (n - length code) pad_byte)
          [n - 5 := lsb (reset_vector rom_size), n - 3 := msb (reset_vector rom_size)] =
     code @ replicate (n - 5 - length code) pad_byte @
       [lsb (reset_vector rom_size), pad_byte, msb (reset_vector rom_size), pad_byte, pad_byte]"
    by (rule patch_trailer [OF le])
  finally show ?thesis
    by (simp only: code_def idx)
qed

subsection \<open>The build on the store\<close>

lemma build_rom_store_unfold:
  assumes "init_tia < length s" "vblank < length s" "viz_area < length s" "overscan < length s"
  shows "build_rom_store s init_tia vblank viz_area overscan rom_size pad_byte =
     (let code = s ! init_tia @ s ! vblank @ s ! viz_area @ s ! overscan;
          s3 = s @ [s ! init_tia @ s ! vblank, s ! init_tia @ s ! vblank @ s ! viz_area, code]
      in case bytearray (list_mul [pad_byte] (rom_size - int (length code))) of
           Inl e \<Rightarrow> (s3, Inl e)
         | Inr padding \<Rightarrow>
             (case setitem (code @ padding) (rom_size - 5) (lsb (reset_vector rom_size)) of
                Inl e \<Rightarrow> (s3 @ [padding, code @ padding], Inl e)
              | Inr rom1 \<Rightarrow>
                  (case setitem rom1 (rom_size - 3) (msb (reset_vector rom_size)) of
                     Inl e \<Rightarrow> (s3 @ [padding, rom1], Inl e)
                   | Inr rom2 \<Rightarrow> (s3 @ [padding, rom2], Inr (length s + 4)))))"
  using assms
  by (simp add: build_rom_store_def bytearray_add_def alloc_def
      bytearray_new_def bytearray_setitem_def Let_def nth_append list_update_append add.assoc
      split: sum.split)

lemma build_rom_store_refines:
  assumes "init_tia < length s" "vblank < length s" "viz_area < length s" "overscan < length s"
  shows "run_output (build_rom_store s init_tia vblank viz_area overscan rom_size pad_byte) =
         build_rom (s ! init_tia) (s ! vblank) (s ! viz_area) (s ! overscan) rom_size pad_byte"
  by (simp add: build_rom_store_unfold [OF assms] build_rom_def run_output_def Let_def nth_append
      split: sum.split)

lemma build_rom_store_frame:
  assumes "init_tia < length s" "vblank < length s" "viz_area < length s" "overscan < length s"
  shows "take (length s) (fst (build_rom_store s init_tia vblank viz_area overscan rom_size pad_byte)) = s"
  by (simp add: build_rom_store_unfold [OF assms] Let_def split: sum.split)

subsection \<open>Claims about the build for any segments and size\<close>

lemma valid_rom_size_bounds: "valid_rom_size rom_size \<Longrightarrow> 5 \<le> rom_size \<and> rom_size \<le> 0x10000"
  by (auto simp: valid_rom_size_def)

text \<open>
  C3. For every valid \<open>rom_size\<close> and all segments whose concatenation is at most
  \<open>rom_size\<close> bytes long, the build returns an image of exactly \<open>rom_size\<close> bytes:
  the concatenation, then \<open>rom_size - code_length\<close> copies of \<open>pad_byte\<close>, then the
  two in-place writes, which keep the length. (\<open>pad_byte\<close> is a byte value, as every
  element handed to \<^verbatim>\<open>bytearray\<close> must be.)
\<close>

theorem image_length:
  assumes "valid_rom_size rom_size"
    and "int (length (init_tia @ vblank @ viz_area @ overscan)) \<le> rom_size"
    and "is_byte pad_byte"
  shows "\<exists>rom. build_rom init_tia vblank viz_area overscan rom_size pad_byte = Inr rom
           \<and> int (length rom) = rom_size
           \<and> rom = ((init_tia @ vblank @ viz_area @ overscan) @
                    replicate (nat (rom_size - int (length (init_tia @ vblank @ viz_area @ overscan)))) pad_byte)
                   [nat (rom_size - 5) := lsb (reset_vector rom_size),
                    nat (rom_size - 3) := msb (reset_vector rom_size)]"
proof -
  from assms(1) have size: "5 \<le> rom_size" "rom_size \<le> 0x10000"
    by (simp_all add: valid_rom_size_bounds)
  note build_rom_result [OF size disjI1 [OF assms(3)], of init_tia vblank viz_area overscan]
  moreover have "int (length (init_tia @ vblank @ viz_area @ overscan) +
      nat (rom_size - int (length (init_tia @ vblank @ viz_area @ overscan)))) = rom_size"
    using assms(2) by simp
  ultimately show ?thesis
    by simp
qed

lemma segment_lengths:
  "length init_tia_bytes = 14" "length vblank_bytes = 25" "length viz_area_bytes = 13"
  "length (overscan_bytes a) = 27"
  by (simp_all add: init_tia_bytes_def vblank_bytes_def viz_area_bytes_def overscan_bytes_def)

lemma code_length:
  "length (init_tia_bytes @ vblank_bytes @ viz_area_bytes @ overscan_bytes a) = 79"
  by (simp add: segment_lengths)

theorem image_length_witness:
  "valid_rom_size 2048
   \<and> int (length (init_tia_bytes @ vblank_bytes @ viz_area_bytes @ overscan_bytes 0xF812)) \<le> 2048
   \<and> is_byte 0
   \<and> (\<exists>rom. build_rom init_tia_bytes vblank_bytes viz_area_bytes (overscan_bytes 0xF812) 2048 0 = Inr rom
          \<and> int (length rom) = 2048)"
proof -
  have valid: "valid_rom_size 2048"
    by (simp add: valid_rom_size_def)
  have fits: "int (length (init_tia_bytes @ vblank_bytes @ viz_area_bytes @ overscan_bytes 0xF812)) \<le> 2048"
    by (simp add: segment_lengths)
  have pad: "is_byte 0"
    by (simp add: is_byte_def)
  from image_length [OF valid fits pad] valid fits pad show ?thesis
    by blast
qed

text \<open>
  C4. In every image built from segments that fit within \<open>rom_size\<close>, the byte at
  offset \<open>rom_size - 5\<close> is the low byte and the byte at offset \<open>rom_size - 3\<close> the
  high byte of \<open>0xFFFF - rom_size + 1\<close>. The two recombine to that address, which is
  the address of offset 0 of the image when its last byte sits at \<open>0xFFFF\<close>.
\<close>

theorem reset_vector_stored:
  assumes "5 \<le> rom_size" and "rom_size \<le> 0x10000"
    and "int (length (init_tia @ vblank @ viz_area @ overscan)) \<le> rom_size"
    and "is_byte pad_byte"
  shows "\<exists>rom. build_rom init_tia vblank viz_area overscan rom_size pad_byte = Inr rom
           \<and> rom ! nat (rom_size - 5) = lsb (0xFFFF - rom_size + 1)
           \<and> rom ! nat (rom_size - 3) = msb (0xFFFF - rom_size + 1)
           \<and> rom ! nat (rom_size - 3) * 256 + rom ! nat (rom_size - 5) = 0xFFFF - rom_size + 1
           \<and> (0xFFFF - rom_size + 1) + (rom_size - 1) = 0xFFFF"
proof -
  define buf where "buf = (init_tia @ vblank @ viz_area @ overscan) @
      replicate (nat (rom_size - int (length (init_tia @ vblank @ viz_area @ overscan)))) pad_byte"
  define lo where "lo = lsb (reset_vector rom_size)"
  define hi where "hi = msb (reset_vector rom_size)"
  have run: "build_rom init_tia vblank viz_area overscan rom_size pad_byte =
      Inr (buf[nat (rom_size - 5) := lo, nat (rom_size - 3) := hi])"
    unfolding buf_def lo_def hi_def
    by (rule build_rom_result [OF assms(1,2) disjI1 [OF assms(4)]])
  have len: "int (length buf) = rom_size"
    using assms(3) by (simp add: buf_def)
  have in_range: "nat (rom_size - 5) < length buf" "nat (rom_size - 3) < length buf"
    using assms(1) len by linarith+
  have distinct: "nat (rom_size - 5) \<noteq> nat (rom_size - 3)"
    using assms(1) by linarith
  have at_lo: "buf[nat (rom_size - 5) := lo, nat (rom_size - 3) := hi] ! nat (rom_size - 5) = lo"
    using in_range distinct by (simp add: nth_list_update)
  have at_hi: "buf[nat (rom_size - 5) := lo, nat (rom_size - 3) := hi] ! nat (rom_size - 3) = hi"
    using in_range by simp
  have "hi * 256 + lo = 0xFFFF - rom_size + 1"
    by (simp add: hi_def lo_def msb_div lsb_mod reset_vector_def)
  with run at_lo at_hi show ?thesis
    by (simp add: lo_def hi_def reset_vector_def)
qed

theorem reset_vector_stored_witness:
  "(5::int) \<le> 4096 \<and> (4096::int) \<le> 0x10000
   \<and> int (length ([0x4C] @ [0x00] @ [0xF0] @ [] :: int list)) \<le> 4096 \<and> is_byte 0
   \<and> (\<exists>rom. build_rom [0x4C] [0x00] [0xF0] [] 4096 0 = Inr rom
          \<and> rom ! 4091 = 0x00 \<and> rom ! 4093 = 0xF0
          \<and> rom ! 4093 * 256 + rom ! 4091 = 0xF000)"
proof -
  have size: "(5::int) \<le> 4096" "(4096::int) \<le> 0x10000"
    by simp_all
  have fits: "int (length ([0x4C] @ [0x00] @ [0xF0] @ [] :: int list)) \<le> 4096"
    by simp
  have pad: "is_byte 0"
    by (simp add: is_byte_def)
  from reset_vector_stored [OF size fits pad]
  obtain rom where "build_rom [0x4C] [0x00] [0xF0] [] 4096 0 = Inr rom"
    and "rom ! nat (4096 - 5) = lsb (0xFFFF - 4096 + 1)"
    and "rom ! nat (4096 - 3) = msb (0xFFFF - 4096 + 1)"
    and "rom ! nat (4096 - 3) * 256 + rom ! nat (4096 - 5) = 0xFFFF - 4096 + 1"
    by blast
  then have "build_rom [0x4C] [0x00] [0xF0] [] 4096 0 = Inr rom
      \<and> rom ! 4091 = 0x00 \<and> rom ! 4093 = 0xF0 \<and> rom ! 4093 * 256 + rom ! 4091 = 0xF000"
    by (simp add: lsb_mod msb_div)
  with size fits pad show ?thesis
    by blast
qed

text \<open>
  C2, as the code has it. The build never compares the code length with \<open>rom_size\<close>.
  When the concatenation is longer than \<open>rom_size\<close> the pad count is negative, the
  padding is empty, both writes land inside the code, and the build returns the whole
  concatenation, longer than \<open>rom_size\<close>, with the bytes at \<open>rom_size - 5\<close> and
  \<open>rom_size - 3\<close> replaced by the reset vector. No exception is raised.
\<close>

theorem oversize_not_detected:
  assumes "5 \<le> rom_size" and "rom_size \<le> 0x10000"
    and "rom_size < int (length (init_tia @ vblank @ viz_area @ overscan))"
  shows "build_rom init_tia vblank viz_area overscan rom_size pad_byte =
           Inr ((init_tia @ vblank @ viz_area @ overscan)
                [nat (rom_size - 5) := lsb (reset_vector rom_size),
                 nat (rom_size - 3) := msb (reset_vector rom_size)])
       \<and> rom_size < int (length ((init_tia @ vblank @ viz_area @ overscan)
                [nat (rom_size - 5) := lsb (reset_vector rom_size),
                 nat (rom_size - 3) := msb (reset_vector rom_size)]))"
proof -
  have over: "rom_size \<le> int (length (init_tia @ vblank @ viz_area @ overscan))"
    using assms(3) by simp
  then have "nat (rom_size - int (length (init_tia @ vblank @ viz_area @ overscan))) = 0"
    by simp
  with build_rom_result [OF assms(1,2) disjI2 [OF over], of pad_byte] assms(3) show ?thesis
    by (simp only: replicate_0 append_Nil2 length_list_update simp_thms)
qed

theorem oversize_not_detected_witness:
  "(5::int) \<le> 4096 \<and> (4096::int) \<le> 0x10000
   \<and> 4096 < int (length (replicate 4000 0xEA @ replicate 100 0xEA @ [] @ [] :: int list))
   \<and> build_rom (replicate 4000 0xEA) (replicate 100 0xEA) [] [] 4096 0 =
        Inr ((replicate 4000 0xEA @ replicate 100 0xEA)[4091 := 0x00, 4093 := 0xF0])"
proof -
  have size: "(5::int) \<le> 4096" "(4096::int) \<le> 0x10000"
    by simp_all
  have over: "4096 < int (length (replicate 4000 0xEA @ replicate 100 0xEA @ [] @ [] :: int list))"
    by simp
  from oversize_not_detected [OF size over, of 0] size over show ?thesis
    by (simp add: reset_vector_def lsb_mod msb_div)
qed

text \<open>
  With the script's own size, one segment of 2049 \<^verbatim>\<open>NOP\<close>s: a buffer of 2049
  bytes comes back instead of an error.
\<close>

theorem oversize_counterexample:
  "build_rom (replicate 2049 0xEA) [] [] [] 2048 0 =
     Inr ((replicate 2049 0xEA)[2043 := 0x00, 2045 := 0xF8])
   \<and> length ((replicate 2049 0xEA)[2043 := 0x00, 2045 := 0xF8 :: int]) = 2049"
proof -
  have size: "(5::int) \<le> 2048" "(2048::int) \<le> 0x10000"
    by simp_all
  have over: "is_byte 0 \<or> 2048 \<le> int (length (replicate 2049 0xEA @ [] @ [] @ [] :: int list))"
    by simp
  from build_rom_result [OF size over] show ?thesis
    by (simp add: reset_vector_def lsb_mod msb_div)
qed

text \<open>
  C8, as the code has it. The two writes change offsets \<open>rom_size - 5\<close> and
  \<open>rom_size - 3\<close> and nothing else: every other byte of the image is the segment byte
  at that offset below the code length and \<open>pad_byte\<close> from there on. When the code
  ends at or below \<open>rom_size - 5\<close> the writes fall into the padding, so the first
  \<open>code_length\<close> bytes are the segments unmodified and the rest is padding around the
  two vector bytes, with \<open>pad_byte\<close> at \<open>rom_size - 4\<close>, \<open>rom_size - 2\<close> and
  \<open>rom_size - 1\<close>.
\<close>

theorem patch_frame:
  assumes "5 \<le> rom_size" and "rom_size \<le> 0x10000"
    and "int (length (init_tia @ vblank @ viz_area @ overscan)) \<le> rom_size"
    and "is_byte pad_byte"
  shows "\<exists>rom. build_rom init_tia vblank viz_area overscan rom_size pad_byte = Inr rom
           \<and> int (length rom) = rom_size
           \<and> (\<forall>i. i < length rom \<and> i \<noteq> nat (rom_size - 5) \<and> i \<noteq> nat (rom_size - 3) \<longrightarrow>
                 rom ! i = (if i < length (init_tia @ vblank @ viz_area @ overscan)
                            then (init_tia @ vblank @ viz_area @ overscan) ! i else pad_byte))
           \<and> (int (length (init_tia @ vblank @ viz_area @ overscan)) \<le> rom_size - 5 \<longrightarrow>
                 take (length (init_tia @ vblank @ viz_area @ overscan)) rom =
                   init_tia @ vblank @ viz_area @ overscan
               \<and> drop (length (init_tia @ vblank @ viz_area @ overscan)) rom =
                   replicate (nat (rom_size - 5) - length (init_tia @ vblank @ viz_area @ overscan)) pad_byte @
                   [lsb (reset_vector rom_size), pad_byte, msb (reset_vector rom_size), pad_byte, pad_byte])"
proof -
  define code where "code = init_tia @ vblank @ viz_area @ overscan"
  define buf where "buf = code @ replicate (nat (rom_size - int (length code))) pad_byte"
  define rom where "rom = buf[nat (rom_size - 5) := lsb (reset_vector rom_size),
      nat (rom_size - 3) := msb (reset_vector rom_size)]"
  have run: "build_rom init_tia vblank viz_area overscan rom_size pad_byte = Inr rom"
    unfolding rom_def buf_def code_def
    by (rule build_rom_result [OF assms(1,2) disjI1 [OF assms(4)]])
  have len: "int (length rom) = rom_size"
    using assms(3) by (simp add: rom_def buf_def code_def)
  have frame: "rom ! i = (if i < length code then code ! i else pad_byte)"
    if "i < length rom" "i \<noteq> nat (rom_size - 5)" "i \<noteq> nat (rom_size - 3)" for i
  proof -
    have "rom ! i = buf ! i"
      using that by (simp add: rom_def)
    also have "\<dots> = (if i < length code then code ! i else pad_byte)"
      using that(1) by (simp add: buf_def nth_append rom_def)
    finally show ?thesis .
  qed
  have below: "take (length code) rom = code \<and>
      drop (length code) rom = replicate (nat (rom_size - 5) - length code) pad_byte @
        [lsb (reset_vector rom_size), pad_byte, msb (reset_vector rom_size), pad_byte, pad_byte]"
    if fits: "int (length code) \<le> rom_size - 5"
  proof -
    from fits have "int (length (init_tia @ vblank @ viz_area @ overscan)) \<le> rom_size - 5"
      by (simp only: code_def)
    from build_rom_layout [OF assms(1,2) this assms(4)] run
    have "rom = code @ replicate (nat (rom_size - 5) - length code) pad_byte @
        [lsb (reset_vector rom_size), pad_byte, msb (reset_vector rom_size), pad_byte, pad_byte]"
      by (simp only: code_def sum.inject)
    then show ?thesis
      by simp
  qed
  from run len frame below show ?thesis
    unfolding code_def by blast
qed

theorem patch_frame_witness:
  "(5::int) \<le> 2048 \<and> (2048::int) \<le> 0x10000
   \<and> int (length ([0xA9, 0x02] @ [0x85, 0x01] @ [] @ [0x4C, 0x00, 0xF8] :: int list)) \<le> 2048
   \<and> is_byte 0
   \<and> (\<exists>rom. build_rom [0xA9, 0x02] [0x85, 0x01] [] [0x4C, 0x00, 0xF8] 2048 0 = Inr rom
          \<and> int (length rom) = 2048
          \<and> rom ! 2044 = 0x00
          \<and> take 7 rom = [0xA9, 0x02, 0x85, 0x01, 0x4C, 0x00, 0xF8]
          \<and> drop 7 rom = replicate 2036 0 @ [0x00, 0x00, 0xF8, 0x00, 0x00])"
proof -
  have size: "(5::int) \<le> 2048" "(2048::int) \<le> 0x10000"
    by simp_all
  have fits: "int (length ([0xA9, 0x02] @ [0x85, 0x01] @ [] @ [0x4C, 0x00, 0xF8] :: int list)) \<le> 2048"
    by simp
  have pad: "is_byte 0"
    by (simp add: is_byte_def)
  from patch_frame [OF size fits pad]
  obtain rom where run: "build_rom [0xA9, 0x02] [0x85, 0x01] [] [0x4C, 0x00, 0xF8] 2048 0 = Inr rom"
    and len: "int (length rom) = 2048"
    and frame: "\<forall>i. i < length rom \<and> i \<noteq> nat (2048 - 5) \<and> i \<noteq> nat (2048 - 3) \<longrightarrow>
        rom ! i = (if i < length ([0xA9, 0x02] @ [0x85, 0x01] @ [] @ [0x4C, 0x00, 0xF8] :: int list)
                   then ([0xA9, 0x02] @ [0x85, 0x01] @ [] @ [0x4C, 0x00, 0xF8]) ! i else 0)"
    and below: "int (length ([0xA9, 0x02] @ [0x85, 0x01] @ [] @ [0x4C, 0x00, 0xF8] :: int list)) \<le> 2048 - 5 \<longrightarrow>
        take (length ([0xA9, 0x02] @ [0x85, 0x01] @ [] @ [0x4C, 0x00, 0xF8] :: int list)) rom =
          [0xA9, 0x02] @ [0x85, 0x01] @ [] @ [0x4C, 0x00, 0xF8]
        \<and> drop (length ([0xA9, 0x02] @ [0x85, 0x01] @ [] @ [0x4C, 0x00, 0xF8] :: int list)) rom =
          replicate (nat (2048 - 5) - length ([0xA9, 0x02] @ [0x85, 0x01] @ [] @ [0x4C, 0x00, 0xF8] :: int list)) 0 @
          [lsb (reset_vector 2048), 0, msb (reset_vector 2048), 0, 0]"
    by blast
  from len have "(2044::nat) < length rom"
    by linarith
  with frame have pad_at: "rom ! 2044 = 0x00"
    by simp
  have seven: "length ([0xA9, 0x02] @ [0x85, 0x01] @ [] @ [0x4C, 0x00, 0xF8] :: int list) = 7"
    by simp
  from below have "take 7 rom = [0xA9, 0x02, 0x85, 0x01, 0x4C, 0x00, 0xF8]
      \<and> drop 7 rom = replicate 2036 0 @ [0x00, 0x00, 0xF8, 0x00, 0x00]"
    unfolding seven by (simp add: reset_vector_def lsb_mod msb_div)
  with size fits pad run len pad_at show ?thesis
    by blast
qed

text \<open>
  Code that fits in the image but reaches into its last five bytes is overwritten: with
  2044 \<^verbatim>\<open>NOP\<close>s in a 2k image the byte at offset 2043 comes back as \<open>0x00\<close>.
\<close>

theorem patch_overwrites_code_counterexample:
  "build_rom (replicate 2044 0xEA) [] [] [] 2048 0 =
     Inr (replicate 2043 0xEA @ [0x00, 0x00, 0xF8, 0x00, 0x00])
   \<and> (replicate 2043 0xEA @ [0x00, 0x00, 0xF8, 0x00, 0x00 :: int]) ! 2043 = 0x00
   \<and> (replicate 2044 0xEA @ [] @ [] @ [] :: int list) ! 2043 = 0xEA"
proof -
  define xs :: "int list" where "xs = replicate 2043 0xEA"
  have len: "length xs = 2043"
    by (simp add: xs_def)
  have size: "(5::int) \<le> 2048" "(2048::int) \<le> 0x10000"
    by simp_all
  have pad: "is_byte 0 \<or> 2048 \<le> int (length (replicate 2044 0xEA @ [] @ [] @ [] :: int list))"
    by (simp add: is_byte_def)
  have "(2044::nat) = Suc 2043"
    by simp
  then have "replicate 2044 (0xEA::int) = xs @ [0xEA]"
    by (simp only: xs_def replicate_Suc replicate_append_same)
  moreover have "replicate 4 (0::int) = [0, 0, 0, 0]"
    by (simp add: numeral_eq_Suc)
  moreover have "nat (2048 - int (length (replicate 2044 0xEA @ [] @ [] @ [] :: int list))) = 4"
    by simp
  ultimately have buf: "(replicate 2044 0xEA @ [] @ [] @ []) @
      replicate (nat (2048 - int (length (replicate 2044 0xEA @ [] @ [] @ [] :: int list)))) 0 =
      xs @ [0xEA, 0, 0, 0, 0]"
    by (simp only: append_Nil2 append_assoc append_Cons append_Nil)
  have idx: "nat (2048 - 5) = length xs" "nat (2048 - 3) = length xs + 2"
    by (simp_all add: len)
  have vec: "lsb (reset_vector 2048) = 0x00" "msb (reset_vector 2048) = 0xF8"
    by (simp_all add: reset_vector_def lsb_mod msb_div)
  have "build_rom (replicate 2044 0xEA) [] [] [] 2048 0 = Inr (xs @ [0x00, 0x00, 0xF8, 0x00, 0x00])"
    using build_rom_result [OF size pad]
    by (simp only: buf idx vec patch_last_five)
  moreover have "(xs @ [0x00, 0x00, 0xF8, 0x00, 0x00]) ! 2043 = 0x00"
    by (simp add: nth_append len)
  moreover have "(replicate 2044 0xEA @ [] @ [] @ [] :: int list) ! 2043 = 0xEA"
    by simp
  ultimately show ?thesis
    by (simp only: xs_def simp_thms)
qed

text \<open>
  C7. The build keeps no state between runs. On the store, a run returns exactly what
  \<open>build_rom\<close> computes from the bytes of the four segments, \<open>rom_size\<close> and
  \<open>pad_byte\<close>; it leaves every object that existed before it, the segments among
  them, as it was; and a second run on the store left by the first returns the same
  bytes (or raises the same exception).
\<close>

theorem build_rom_store_deterministic:
  assumes "init_tia < length s" and "vblank < length s"
    and "viz_area < length s" and "overscan < length s"
  shows "run_output (build_rom_store s init_tia vblank viz_area overscan rom_size pad_byte) =
           build_rom (s ! init_tia) (s ! vblank) (s ! viz_area) (s ! overscan) rom_size pad_byte
       \<and> take (length s) (fst (build_rom_store s init_tia vblank viz_area overscan rom_size pad_byte)) = s
       \<and> run_output (build_rom_store
             (fst (build_rom_store s init_tia vblank viz_area overscan rom_size pad_byte))
             init_tia vblank viz_area overscan rom_size pad_byte) =
           run_output (build_rom_store s init_tia vblank viz_area overscan rom_size pad_byte)"
proof -
  define s' where "s' = fst (build_rom_store s init_tia vblank viz_area overscan rom_size pad_byte)"
  have prefix: "take (length s) s' = s"
    unfolding s'_def by (rule build_rom_store_frame [OF assms])
  then have longer: "length s \<le> length s'"
    by (metis length_take min.cobounded1)
  have same: "s' ! r = s ! r" if "r < length s" for r
    using that prefix by (metis nth_take)
  have refs: "init_tia < length s'" "vblank < length s'" "viz_area < length s'" "overscan < length s'"
    using assms longer by simp_all
  have "run_output (build_rom_store s' init_tia vblank viz_area overscan rom_size pad_byte) =
      build_rom (s' ! init_tia) (s' ! vblank) (s' ! viz_area) (s' ! overscan) rom_size pad_byte"
    by (rule build_rom_store_refines [OF refs])
  also have "\<dots> = build_rom (s ! init_tia) (s ! vblank) (s ! viz_area) (s ! overscan) rom_size pad_byte"
    using assms by (simp only: same)
  finally have "run_output (build_rom_store s' init_tia vblank viz_area overscan rom_size pad_byte) =
      run_output (build_rom_store s init_tia vblank viz_area overscan rom_size pad_byte)"
    by (simp only: build_rom_store_refines [OF assms])
  with build_rom_store_refines [OF assms] prefix show ?thesis
    unfolding s'_def by blast
qed

theorem build_rom_store_deterministic_witness:
  "(0::nat) < length [[0x78], [0xD8], [0xA2, 0xFF], [0x9A :: int]]
   \<and> (1::nat) < length [[0x78], [0xD8], [0xA2, 0xFF], [0x9A :: int]]
   \<and> (2::nat) < length [[0x78], [0xD8], [0xA2, 0xFF], [0x9A :: int]]
   \<and> (3::nat) < length [[0x78], [0xD8], [0xA2, 0xFF], [0x9A :: int]]
   \<and> run_output (build_rom_store [[0x78], [0xD8], [0xA2, 0xFF], [0x9A]] 0 1 2 3 16 0) =
        Inr [0x78, 0xD8, 0xA2, 0xFF, 0x9A, 0, 0, 0, 0, 0, 0, 0xF0, 0, 0xFF, 0, 0]
   \<and> take 4 (fst (build_rom_store [[0x78], [0xD8], [0xA2, 0xFF], [0x9A]] 0 1 2 3 16 0)) =
        [[0x78], [0xD8], [0xA2, 0xFF], [0x9A]]
   \<and> run_output (build_rom_store
          (fst (build_rom_store [[0x78], [0xD8], [0xA2, 0xFF], [0x9A]] 0 1 2 3 16 0)) 0 1 2 3 16 0) =
        Inr [0x78, 0xD8, 0xA2, 0xFF, 0x9A, 0, 0, 0, 0, 0, 0, 0xF0, 0, 0xFF, 0, 0]"
proof -
  define s :: "int list list" where "s = [[0x78], [0xD8], [0xA2, 0xFF], [0x9A]]"
  have refs: "0 < length s" "1 < length s" "2 < length s" "3 < length s"
    by (simp_all add: s_def)
  have segs: "s ! 0 = [0x78]" "s ! 1 = [0xD8]" "s ! 2 = [0xA2, 0xFF]" "s ! 3 = [0x9A]"
    by (simp_all add: s_def)
  have eval: "build_rom [0x78] [0xD8] [0xA2, 0xFF] [0x9A] 16 0 =
      Inr [0x78, 0xD8, 0xA2, 0xFF, 0x9A, 0, 0, 0, 0, 0, 0, 0xF0, 0, 0xFF, 0, 0]"
    by code_simp
  note det = build_rom_store_deterministic [OF refs, of 16 0]
  from det have first: "run_output (build_rom_store s 0 1 2 3 16 0) =
      Inr [0x78, 0xD8, 0xA2, 0xFF, 0x9A, 0, 0, 0, 0, 0, 0, 0xF0, 0, 0xFF, 0, 0]"
    by (simp only: segs eval)
  with det have again: "run_output (build_rom_store (fst (build_rom_store s 0 1 2 3 16 0)) 0 1 2 3 16 0) =
      Inr [0x78, 0xD8, 0xA2, 0xFF, 0x9A, 0, 0, 0, 0, 0, 0, 0xF0, 0, 0xFF, 0, 0]"
    by (simp only:)
  have "length s = 4"
    by (simp add: s_def)
  with det have "take 4 (fst (build_rom_store s 0 1 2 3 16 0)) = s"
    by (simp only:)
  with refs first again show ?thesis
    unfolding s_def by blast
qed

subsection \<open>Claims about the script's own image\<close>

lemma looptop_cfg: "looptop cfg_rom_size init_tia_bytes = 0xF812"
  by (simp add: looptop_def cfg_rom_size_def segment_lengths)

lemma segments_are_bytes:
  "list_all is_byte init_tia_bytes" "list_all is_byte vblank_bytes"
  "list_all is_byte viz_area_bytes" "list_all is_byte (overscan_bytes 0xF812)"
  by (simp_all add: init_tia_bytes_def vblank_bytes_def viz_area_bytes_def overscan_bytes_def
      is_byte_def lsb_mod msb_div)

lemma cart_maker_result:
  "cart_maker =
     Inr ((init_tia_bytes @ vblank_bytes @ viz_area_bytes @ overscan_bytes 0xF812) @
          replicate 1964 0 @ [0x00, 0x00, 0xF8, 0x00, 0x00])"
proof -
  have size: "5 \<le> cfg_rom_size" "cfg_rom_size \<le> 0x10000"
    by (simp_all add: cfg_rom_size_def)
  have fits: "int (length (init_tia_bytes @ vblank_bytes @ viz_area_bytes @ overscan_bytes 0xF812))
      \<le> cfg_rom_size - 5"
    by (simp only: code_length) (simp add: cfg_rom_size_def)
  have pad: "is_byte cfg_pad_byte"
    by (simp add: cfg_pad_byte_def is_byte_def)
  have vec: "lsb (reset_vector cfg_rom_size) = 0x00" "msb (reset_vector cfg_rom_size) = 0xF8"
    by (simp_all add: reset_vector_def cfg_rom_size_def lsb_mod msb_div)
  have count: "nat (cfg_rom_size - 5) -
      length (init_tia_bytes @ vblank_bytes @ viz_area_bytes @ overscan_bytes 0xF812) = 1964"
    by (simp only: code_length) (simp add: cfg_rom_size_def)
  have "cart_maker =
      build_rom init_tia_bytes vblank_bytes viz_area_bytes (overscan_bytes 0xF812)
        cfg_rom_size cfg_pad_byte"
    by (simp add: cart_maker_def bytearray_def segments_are_bytes looptop_cfg)
  also note build_rom_layout [OF size fits pad]
  finally show ?thesis
    by (simp only: vec count cfg_pad_byte_def)
qed

text \<open>
  C1, as the code has it. \<open>looptop\<close> is \<open>0xFFFF - rom_size + len(init_tia) + 5\<close>,
  that is the address of image offset 0, \<open>0xFFFF - rom_size + 1\<close>, plus the length of
  the first segment plus a displacement of 4 into the second. For the script's values
  this is \<open>0xF800 + 14 + 4 = 0xF812\<close>; the overscan chunk ends with
  \<^verbatim>\<open>4C 12 F8\<close>, and the two bytes at displacement 4 of the vertical-blank chunk are
  \<^verbatim>\<open>85 00\<close>, its first \<^verbatim>\<open>STA VSYNC\<close>.
\<close>

theorem looptop_address:
  "looptop rom_size init_tia = (0xFFFF - rom_size + 1) + int (length init_tia) + 4
   \<and> looptop cfg_rom_size init_tia_bytes = 0xF800 + 14 + 4
   \<and> looptop cfg_rom_size init_tia_bytes = 0xF812
   \<and> drop 24 (overscan_bytes (looptop cfg_rom_size init_tia_bytes)) = [0x4C, 0x12, 0xF8]
   \<and> take 2 (drop 4 vblank_bytes) = [0x85, 0x00]"
  by (simp add: looptop_def cfg_rom_size_def segment_lengths overscan_bytes_def vblank_bytes_def
      lsb_mod msb_div)

theorem looptop_counterexample:
  "cfg_rom_size = 2048 \<and> length init_tia_bytes = 14
   \<and> looptop cfg_rom_size init_tia_bytes = 0xF812
   \<and> looptop cfg_rom_size init_tia_bytes \<noteq> 0xF814
   \<and> looptop cfg_rom_size init_tia_bytes \<noteq> 0xFFFF - cfg_rom_size + 1 + 14 + 5"
  by (simp add: looptop_def cfg_rom_size_def segment_lengths)

text \<open>
  C5, as the code has it. With \<open>rom_size = 2048\<close> and \<open>pad_byte = 0\<close> the four
  segments are 14, 25, 13 and 27 bytes long, 79 in all. The script raises nothing and
  writes 2048 bytes: the first 79 are the concatenated segments, offsets 79 to 2042 hold
  \<open>0x00\<close>, the reset address is \<open>0xF800\<close>, and its bytes \<open>0x00\<close> and \<open>0xF8\<close> are
  at offsets 2043 and 2045.
\<close>

theorem concrete_image:
  "length init_tia_bytes = 14 \<and> length vblank_bytes = 25 \<and> length viz_area_bytes = 13
   \<and> length (overscan_bytes (looptop cfg_rom_size init_tia_bytes)) = 27
   \<and> cfg_rom_size = 2048 \<and> cfg_pad_byte = 0
   \<and> reset_vector cfg_rom_size = 0xF800
   \<and> (\<exists>rom. cart_maker = Inr rom
          \<and> length rom = 2048
          \<and> take 79 rom = init_tia_bytes @ vblank_bytes @ viz_area_bytes @
               overscan_bytes (looptop cfg_rom_size init_tia_bytes)
          \<and> drop 79 (take 2043 rom) = replicate 1964 0x00
          \<and> rom ! 2043 = 0x00 \<and> rom ! 2045 = 0xF8)"
proof -
  define code where
    "code = init_tia_bytes @ vblank_bytes @ viz_area_bytes @ overscan_bytes 0xF812"
  define rom where "rom = code @ replicate 1964 0 @ [0x00, 0x00, 0xF8, 0x00, 0x00]"
  have len: "length code = 79"
    by (simp add: code_def segment_lengths)
  have run: "cart_maker = Inr rom"
    by (simp only: cart_maker_result rom_def code_def)
  have "length rom = 2048"
    by (simp add: rom_def len)
  moreover have "take 79 rom = code"
    by (simp add: rom_def len)
  moreover have "drop 79 (take 2043 rom) = replicate 1964 0x00"
    by (simp add: rom_def len)
  moreover have "rom ! 2043 = 0x00" "rom ! 2045 = 0xF8"
    by (simp_all add: rom_def len nth_append)
  ultimately have "\<exists>rom. cart_maker = Inr rom \<and> length rom = 2048 \<and> take 79 rom = code
      \<and> drop 79 (take 2043 rom) = replicate 1964 0x00 \<and> rom ! 2043 = 0x00 \<and> rom ! 2045 = 0xF8"
    using run by blast
  then show ?thesis
    unfolding looptop_cfg
    by (simp add: code_def segment_lengths cfg_rom_size_def cfg_pad_byte_def reset_vector_def)
qed

theorem concrete_scenario_counterexample:
  "length vblank_bytes = 25 \<and> length viz_area_bytes = 13
   \<and> length (overscan_bytes (looptop cfg_rom_size init_tia_bytes)) = 27
   \<and> reset_vector cfg_rom_size = 0xF800
   \<and> cart_maker =
        Inr ((init_tia_bytes @ vblank_bytes @ viz_area_bytes @ overscan_bytes 0xF812) @
             replicate 1964 0 @ [0x00, 0x00, 0xF8, 0x00, 0x00])
   \<and> ((init_tia_bytes @ vblank_bytes @ viz_area_bytes @ overscan_bytes 0xF812) @
             replicate 1964 0 @ [0x00, 0x00, 0xF8, 0x00, 0x00]) ! 75 = 0x02
   \<and> ((init_tia_bytes @ vblank_bytes @ viz_area_bytes @ overscan_bytes 0xF812) @
             replicate 1964 0 @ [0x00, 0x00, 0xF8, 0x00, 0x00]) ! 2043 = 0x00"
proof -
  have "((init_tia_bytes @ vblank_bytes @ viz_area_bytes @ overscan_bytes 0xF812) @
             replicate 1964 0 @ [0x00, 0x00, 0xF8, 0x00, 0x00]) ! 75 = 0x02"
    by (simp add: nth_append segment_lengths) (simp add: overscan_bytes_def)
  moreover have "((init_tia_bytes @ vblank_bytes @ viz_area_bytes @ overscan_bytes 0xF812) @
             replicate 1964 0 @ [0x00, 0x00, 0xF8, 0x00, 0x00]) ! 2043 = 0x00"
    by (simp add: nth_append segment_lengths)
  ultimately show ?thesis
    by (simp add: segment_lengths reset_vector_def cfg_rom_size_def cart_maker_result)
qed

text \<open>
  C10. In the script every value put into a bytearray is a byte: the literals of the four
  segments, both halves of \<open>looptop\<close>, both halves of the reset vector, and
  \<open>pad_byte\<close>. The code is 79 bytes long, the patched offsets 2043 and 2045 lie at or
  beyond 79 and below 2048, so every construction and both index assignments succeed,
  and the first 79 bytes of the image are still the code.
\<close>

theorem concrete_values_in_range:
  "list_all is_byte init_tia_bytes \<and> list_all is_byte vblank_bytes
   \<and> list_all is_byte viz_area_bytes
   \<and> list_all is_byte (overscan_bytes (looptop cfg_rom_size init_tia_bytes))
   \<and> is_byte (lsb (looptop cfg_rom_size init_tia_bytes))
   \<and> is_byte (msb (looptop cfg_rom_size init_tia_bytes))
   \<and> is_byte (lsb (reset_vector cfg_rom_size)) \<and> is_byte (msb (reset_vector cfg_rom_size))
   \<and> is_byte cfg_pad_byte
   \<and> int (length (init_tia_bytes @ vblank_bytes @ viz_area_bytes @
            overscan_bytes (looptop cfg_rom_size init_tia_bytes))) = 79
   \<and> cfg_rom_size - 5 = 2043 \<and> (79::int) \<le> 2043
   \<and> cfg_rom_size - 3 = 2045 \<and> (2045::int) < cfg_rom_size
   \<and> (\<exists>rom. cart_maker = Inr rom
          \<and> int (length rom) = cfg_rom_size
          \<and> take 79 rom = init_tia_bytes @ vblank_bytes @ viz_area_bytes @
               overscan_bytes (looptop cfg_rom_size init_tia_bytes))"
proof -
  define code where
    "code = init_tia_bytes @ vblank_bytes @ viz_area_bytes @ overscan_bytes 0xF812"
  define rom where "rom = code @ replicate 1964 0 @ [0x00, 0x00, 0xF8, 0x00, 0x00]"
  have len: "length code = 79"
    by (simp add: code_def segment_lengths)
  have "cart_maker = Inr rom"
    by (simp only: cart_maker_result rom_def code_def)
  moreover have "int (length rom) = cfg_rom_size"
    by (simp add: rom_def len cfg_rom_size_def)
  moreover have "take 79 rom = code"
    by (simp add: rom_def len)
  ultimately have "\<exists>rom. cart_maker = Inr rom \<and> int (length rom) = cfg_rom_size \<and> take 79 rom = code"
    by blast
  moreover have "is_byte (msb 0xF812)" "is_byte (msb (reset_vector cfg_rom_size))" "is_byte cfg_pad_byte"
    by (simp_all add: is_byte_def msb_div reset_vector_def cfg_rom_size_def cfg_pad_byte_def)
  ultimately show ?thesis
    unfolding looptop_cfg
    by (simp add: code_def segments_are_bytes is_byte_lsb segment_lengths cfg_rom_size_def)
qed

end
